theory Spec2Isabelle
  imports Main
begin

section \<open>The account store of \<^verbatim>\<open>frontend/src/stores/accounts.ts\<close>\<close>

subsection \<open>Data\<close>

text \<open>
  An \<^verbatim>\<open>AdminAccount\<close>. The store reads \<^verbatim>\<open>id\<close> and writes
  \<^verbatim>\<open>disabled\<close>, \<^verbatim>\<open>cooldown_seconds\<close> and \<^verbatim>\<open>cooldown_reason\<close>; the type's
  declaration is not part of the sources, so every other field it may carry is the
  record's extension \<open>'m\<close> (functions below are typed over \<open>'m account_scheme\<close>).
  The field \<^verbatim>\<open>id\<close> is named \<open>id'\<close>, since \<open>id\<close> is HOL's identity function.
  \<^verbatim>\<open>cooldown_seconds\<close> is a number the store never computes with: it only writes
  the literal \<^verbatim>\<open>0\<close>.
\<close>

record account =
  id' :: string
  disabled :: bool
  cooldown_seconds :: int
  cooldown_reason :: string

text \<open>The two \<^verbatim>\<open>ref\<close>s of the store: \<^verbatim>\<open>accounts\<close> and \<^verbatim>\<open>isLoading\<close>.\<close>

record 'm store =
  accounts :: "'m account_scheme list"
  isLoading :: bool

text \<open>The initial store: \<^verbatim>\<open>ref([])\<close> and \<^verbatim>\<open>ref(false)\<close>.\<close>

definition initial :: "'m store" where
  "initial = \<lparr>accounts = [], isLoading = False\<rparr>"

text \<open>
  The calls on \<^verbatim>\<open>accountsApi\<close>. An \<^verbatim>\<open>AccountConfigItem\<close> is passed through
  unread: it is the type parameter \<open>'c\<close>.
\<close>

datatype 'c api_call =
    ApiList
  | ApiDelete string
  | ApiDisable string
  | ApiEnable string
  | ApiBulkEnable "string list"
  | ApiBulkDisable "string list"
  | ApiUpdateConfig "'c list"

text \<open>
  What \<^verbatim>\<open>accountsApi.list()\<close> fulfils with: a bare array
  (\<^verbatim>\<open>Array.isArray(response)\<close>), or an object whose \<^verbatim>\<open>accounts\<close> field holds
  the array or is absent. In \<^verbatim>\<open>response.accounts || []\<close> an array, even an empty
  one, is truthy and is taken as it is; an absent field is \<^verbatim>\<open>undefined\<close> and gives
  \<^verbatim>\<open>[]\<close>.
\<close>

datatype 'm response =
    Bare "'m account_scheme list"
  | Envelope "'m account_scheme list option"

text \<open>The reason a promise of the API rejects with; the store never inspects it.\<close>

datatype error = ApiRejection string

text \<open>How an awaited promise settles.\<close>

datatype 'v settled = Fulfilled 'v | Rejected error

subsection \<open>Asynchronous operations\<close>

text \<open>
  An \<^verbatim>\<open>async function\<close> runs synchronously up to its first \<^verbatim>\<open>await\<close>, hands
  control back, and is resumed when the awaited promise settles. In between, other
  operations of the store may run, so the continuation takes the store as it is at the
  moment of resumption, not as it was left.

  \<^item> \<open>Done s\<close>: the operation's promise is fulfilled, the store being \<open>s\<close>.
  \<^item> \<open>Failed e s\<close>: the operation's promise is rejected with \<open>e\<close>, the store being \<open>s\<close>.
  \<^item> \<open>AwaitList s k\<close>: with the store being \<open>s\<close>, \<^verbatim>\<open>accountsApi.list()\<close> has been
    called and is awaited; \<open>k r s'\<close> is the rest of the operation once it settles with
    \<open>r\<close> in store \<open>s'\<close>.
  \<^item> \<open>Await cs s k\<close>: with the store being \<open>s\<close>, the calls \<open>cs\<close> have been issued, in
    this order, and one promise is awaited: the call's own for a plain \<^verbatim>\<open>await\<close>,
    the one \<^verbatim>\<open>Promise.all\<close> builds from them in \<^verbatim>\<open>bulkDelete\<close>. The value it
    fulfils with is never read.
\<close>

datatype ('m, 'c) task =
    Done "'m store"
  | Failed error "'m store"
  | AwaitList "'m store" "'m response settled \<Rightarrow> 'm store \<Rightarrow> ('m, 'c) task"
  | Await "'c api_call list" "'m store" "unit settled \<Rightarrow> 'm store \<Rightarrow> ('m, 'c) task"

text \<open>The calls a task has issued when it hands control back.\<close>

fun issued :: "('m, 'c) task \<Rightarrow> 'c api_call list" where
  "issued (Done s) = []"
| "issued (Failed e s) = []"
| "issued (AwaitList s k) = [ApiList]"
| "issued (Await cs s k) = cs"

text \<open>The store a task leaves when it hands control back.\<close>

fun held :: "('m, 'c) task \<Rightarrow> 'm store" where
  "held (Done s) = s"
| "held (Failed e s) = s"
| "held (AwaitList s k) = s"
| "held (Await cs s k) = s"

text \<open>
  Resuming a suspended task: the awaited promise has settled with \<open>r\<close>, and the store
  is \<open>s'\<close> by then. A task that awaits nothing of the kind stays as it is.
\<close>

fun resume :: "('m, 'c) task \<Rightarrow> unit settled \<Rightarrow> 'm store \<Rightarrow> ('m, 'c) task" where
  "resume (Await cs s k) r s' = k r s'"
| "resume t r s' = t"

fun resumeList :: "('m, 'c) task \<Rightarrow> 'm response settled \<Rightarrow> 'm store \<Rightarrow> ('m, 'c) task" where
  "resumeList (AwaitList s k) r s' = k r s'"
| "resumeList t r s' = t"

text \<open>
  \<^verbatim>\<open>const account = accounts.value.find(p); if (account) { ...assignments... }\<close>:
  \<^verbatim>\<open>find\<close> yields the first element that satisfies \<open>p\<close>, and the assignments \<open>f\<close>
  change that element in place; when there is none, nothing is written. The array
  comes from a parsed response, so no two positions hold the same object.
\<close>

fun mutate_found :: "('a \<Rightarrow> bool) \<Rightarrow> ('a \<Rightarrow> 'a) \<Rightarrow> 'a list \<Rightarrow> 'a list" where
  "mutate_found p f [] = []"
| "mutate_found p f (x # xs) = (if p x then f x # xs else x # mutate_found p f xs)"

subsection \<open>The operations of the store\<close>

definition loadAccounts :: "'m store \<Rightarrow> ('m, 'c) task" where
  "loadAccounts s =
     (let s1 = s\<lparr>isLoading := True\<rparr> in
      AwaitList s1 (\<lambda>r s2.
        case r of
          Fulfilled response \<Rightarrow>
            (let s3 = s2\<lparr>accounts :=
                       (case response of
                          Bare xs \<Rightarrow> xs
                        | Envelope field \<Rightarrow> (case field of Some xs \<Rightarrow> xs | None \<Rightarrow> []))\<rparr>
             in Done (s3\<lparr>isLoading := False\<rparr>))
        | Rejected e \<Rightarrow> Failed e (s2\<lparr>isLoading := False\<rparr>)))"

definition deleteAccount :: "string \<Rightarrow> 'm store \<Rightarrow> ('m, 'c) task" where
  "deleteAccount accountId s =
     (let s1 = s\<lparr>accounts := filter (\<lambda>acc. id' acc \<noteq> accountId) (accounts s)\<rparr> in
      Await [ApiDelete accountId] s1 (\<lambda>r s2.
        case r of
          Fulfilled _ \<Rightarrow> Done s2
        | Rejected e \<Rightarrow> Failed e s2))"

definition disableAccount :: "string \<Rightarrow> 'm store \<Rightarrow> ('m, 'c) task" where
  "disableAccount accountId s =
     Await [ApiDisable accountId] s (\<lambda>r s2.
       case r of
         Fulfilled _ \<Rightarrow>
           Done (s2\<lparr>accounts :=
                   mutate_found (\<lambda>acc. id' acc = accountId)
                     (\<lambda>account. account\<lparr>disabled := True\<rparr>) (accounts s2)\<rparr>)
       | Rejected e \<Rightarrow> Failed e s2)"

definition enableAccount :: "string \<Rightarrow> 'm store \<Rightarrow> ('m, 'c) task" where
  "enableAccount accountId s =
     Await [ApiEnable accountId] s (\<lambda>r s2.
       case r of
         Fulfilled _ \<Rightarrow>
           Done (s2\<lparr>accounts :=
                   mutate_found (\<lambda>acc. id' acc = accountId)
                     (\<lambda>account. account\<lparr>disabled := False, cooldown_seconds := 0,
                                        cooldown_reason := ''''\<rparr>) (accounts s2)\<rparr>)
       | Rejected e \<Rightarrow> Failed e s2)"

text \<open>\<^verbatim>\<open>accountIds.forEach\<close> visits the ids from left to right: a \<open>fold\<close>.\<close>

definition bulkEnable :: "string list \<Rightarrow> 'm store \<Rightarrow> ('m, 'c) task" where
  "bulkEnable accountIds s =
     Await [ApiBulkEnable accountIds] s (\<lambda>r s2.
       case r of
         Fulfilled _ \<Rightarrow>
           Done (s2\<lparr>accounts :=
                   fold (\<lambda>i. mutate_found (\<lambda>acc. id' acc = i)
                           (\<lambda>account. account\<lparr>disabled := False, cooldown_seconds := 0,
                                              cooldown_reason := ''''\<rparr>))
                     accountIds (accounts s2)\<rparr>)
       | Rejected e \<Rightarrow> Failed e s2)"

definition bulkDisable :: "string list \<Rightarrow> 'm store \<Rightarrow> ('m, 'c) task" where
  "bulkDisable accountIds s =
     Await [ApiBulkDisable accountIds] s (\<lambda>r s2.
       case r of
         Fulfilled _ \<Rightarrow>
           Done (s2\<lparr>accounts :=
                   fold (\<lambda>i. mutate_found (\<lambda>acc. id' acc = i)
                           (\<lambda>account. account\<lparr>disabled := True\<rparr>))
                     accountIds (accounts s2)\<rparr>)
       | Rejected e \<Rightarrow> Failed e s2)"

text \<open>
  \<^verbatim>\<open>accountIds.map(accountId => accountsApi.delete(accountId))\<close> issues one call per
  element, left to right, before \<^verbatim>\<open>Promise.all\<close> is awaited.
\<close>

definition bulkDelete :: "string list \<Rightarrow> 'm store \<Rightarrow> ('m, 'c) task" where
  "bulkDelete accountIds s =
     (let s1 = s\<lparr>accounts := filter (\<lambda>acc. id' acc \<notin> set accountIds) (accounts s)\<rparr> in
      Await (map ApiDelete accountIds) s1 (\<lambda>r s2.
        case r of
          Fulfilled _ \<Rightarrow> Done s2
        | Rejected e \<Rightarrow> Failed e s2))"

definition updateConfig :: "'c list \<Rightarrow> 'm store \<Rightarrow> ('m, 'c) task" where
  "updateConfig newAccounts s =
     Await [ApiUpdateConfig newAccounts] s (\<lambda>r s2.
       case r of
         Fulfilled _ \<Rightarrow> loadAccounts s2
       | Rejected e \<Rightarrow> Failed e s2)"

subsection \<open>Uniqueness of ids\<close>

text \<open>The invariant of the data model: the held list has at most one record per id.\<close>

definition unique_ids :: "'m store \<Rightarrow> bool" where
  "unique_ids s = distinct (map id' (accounts s))"

text \<open>A settled listing whose array, if it carries one, has at most one record per id.\<close>

fun unique_listing :: "'m response settled \<Rightarrow> bool" where
  "unique_listing (Fulfilled (Bare xs)) = distinct (map id' xs)"
| "unique_listing (Fulfilled (Envelope (Some xs))) = distinct (map id' xs)"
| "unique_listing (Fulfilled (Envelope None)) = True"
| "unique_listing (Rejected e) = True"

text \<open>
  A task keeps the invariant when every store it leaves has unique ids: the one it
  hands control back with, and, resumed in any store with unique ids (by a listing with
  unique ids, where it awaits one), every store the rest of it leaves.
\<close>

primrec keeps_unique_ids :: "('m, 'c) task \<Rightarrow> bool" where
  "keeps_unique_ids (Done s) = unique_ids s"
| "keeps_unique_ids (Failed e s) = unique_ids s"
| "keeps_unique_ids (AwaitList s k) =
     (unique_ids s \<and>
      (\<forall>r s'. unique_listing r \<and> unique_ids s' \<longrightarrow> keeps_unique_ids (k r s')))"
| "keeps_unique_ids (Await cs s k) =
     (unique_ids s \<and> (\<forall>r s'. unique_ids s' \<longrightarrow> keeps_unique_ids (k r s')))"

section \<open>Properties\<close>

subsection \<open>Lookup and in-place assignment\<close>

text \<open>
  \<open>mutate_found\<close> against the library's \<open>find\<close>: nothing changes when \<open>find\<close>
  yields nothing, and otherwise the element it yields is the one assigned to.
\<close>

lemma mutate_found_find_None: "find p xs = None \<Longrightarrow> mutate_found p f xs = xs"
  by (induction xs) (auto split: if_splits)

lemma mutate_found_find_Some:
  "find p xs = Some x \<Longrightarrow>
     \<exists>ys zs. xs = ys @ x # zs \<and> list_all (\<lambda>y. \<not> p y) ys
       \<and> mutate_found p f xs = ys @ f x # zs"
proof (induction xs)
  case Nil
  then show ?case by simp
next
  case (Cons a xs)
  show ?case
  proof (cases "p a")
    case True
    with Cons.prems have "a = x" by simp
    with True have "a # xs = [] @ x # xs \<and> list_all (\<lambda>y. \<not> p y) []
        \<and> mutate_found p f (a # xs) = [] @ f x # xs"
      by simp
    then show ?thesis by blast
  next
    case False
    with Cons.prems have "find p xs = Some x" by simp
    from Cons.IH [OF this] obtain ys zs where
      "xs = ys @ x # zs" "list_all (\<lambda>y. \<not> p y) ys" "mutate_found p f xs = ys @ f x # zs"
      by blast
    with False have "a # xs = (a # ys) @ x # zs \<and> list_all (\<lambda>y. \<not> p y) (a # ys)
        \<and> mutate_found p f (a # xs) = (a # ys) @ f x # zs"
      by simp
    then show ?thesis by blast
  qed
qed


lemma length_mutate_found: "length (mutate_found p f xs) = length xs"
  by (induction xs) auto

lemma map_mutate_found:
  "(\<And>x. g (f x) = g x) \<Longrightarrow> map g (mutate_found p f xs) = map g xs"
  by (induction xs) auto

lemma map_fold_mutate_found:
  "(\<And>x. g (f x) = g x) \<Longrightarrow>
     map g (fold (\<lambda>i. mutate_found (p i) f) ids xs) = map g xs"
  by (induction ids arbitrary: xs) (auto simp: map_mutate_found)

text \<open>The element that \<^verbatim>\<open>find\<close> yields is the first one that satisfies the test.\<close>

lemma mutate_found_first:
  "i < length xs \<Longrightarrow> p (xs ! i) \<Longrightarrow> (\<forall>j<i. \<not> p (xs ! j)) \<Longrightarrow>
     mutate_found p f xs = xs[i := f (xs ! i)]"
proof (induction xs arbitrary: i)
  case Nil
  then show ?case by simp
next
  case (Cons x xs)
  show ?case
  proof (cases i)
    case 0
    with Cons.prems show ?thesis by simp
  next
    case (Suc n)
    from Cons.prems Suc have "\<not> p x" by auto
    moreover from Cons.prems Suc have "n < length xs" "p (xs ! n)" "\<forall>j<n. \<not> p (xs ! j)"
      by auto
    ultimately show ?thesis using Cons.IH [of n] Suc by simp
  qed
qed

lemma mutate_found_frame:
  "list_all2 (\<lambda>a b. b = a \<or> (p a \<and> b = f a)) xs (mutate_found p f xs)"
  by (induction xs) (auto simp: list.rel_refl)


lemma fold_mutate_found_frame:
  assumes idem: "\<And>x. f (f x) = f x" and key: "\<And>x. g (f x) = g x"
  shows "list_all2 (\<lambda>a b. b = a \<or> (g a \<in> set ids \<and> b = f a)) xs
           (fold (\<lambda>i. mutate_found (\<lambda>x. g x = i) f) ids xs)"
proof (induction ids arbitrary: xs)
  case Nil
  show ?case by (simp add: list.rel_refl)
next
  case (Cons i ids)
  let ?ys = "mutate_found (\<lambda>x. g x = i) f xs"
  have one: "list_all2 (\<lambda>a b. b = a \<or> (g a = i \<and> b = f a)) xs ?ys"
    by (rule mutate_found_frame)
  have rest: "list_all2 (\<lambda>a b. b = a \<or> (g a \<in> set ids \<and> b = f a)) ?ys
                (fold (\<lambda>i. mutate_found (\<lambda>x. g x = i) f) ids ?ys)"
    by (rule Cons.IH)
  have "list_all2 (\<lambda>a b. b = a \<or> (g a \<in> set (i # ids) \<and> b = f a)) xs
          (fold (\<lambda>i. mutate_found (\<lambda>x. g x = i) f) ids ?ys)"
  proof (rule list_all2_trans [OF _ one rest])
    fix a b c
    assume "b = a \<or> (g a = i \<and> b = f a)" and "c = b \<or> (g b \<in> set ids \<and> c = f b)"
    then show "c = a \<or> (g a \<in> set (i # ids) \<and> c = f a)"
      using idem key by auto
  qed
  then show ?case by simp
qed


lemma distinct_key_first:
  assumes "distinct (map g xs)" and "i < length xs" and "j < i"
  shows "g (xs ! j) \<noteq> g (xs ! i)"
proof -
  from assms have "j < length (map g xs)" "i < length (map g xs)" "j \<noteq> i"
    by auto
  with assms(1) have "map g xs ! j \<noteq> map g xs ! i"
    by (auto simp: distinct_conv_nth)
  with assms show ?thesis by simp
qed

subsection \<open>Loading\<close>

text \<open>
  Claim C1. \<^verbatim>\<open>loadAccounts\<close> sets \<^verbatim>\<open>isLoading\<close>, calls \<^verbatim>\<open>accountsApi.list()\<close>
  and waits. Whatever the store is when the call settles: a bare array becomes the
  accounts list as it is; an envelope gives its \<^verbatim>\<open>accounts\<close> field, or the empty
  list when the field is absent; and \<^verbatim>\<open>isLoading\<close> is false afterwards, both when
  the call fulfils and when it rejects (the rejection is passed on, the list untouched).
\<close>

theorem loadAccounts_replaces_and_clears:
  "issued (loadAccounts s :: ('m, 'c) task) = [ApiList]
   \<and> held (loadAccounts s :: ('m, 'c) task) = s\<lparr>isLoading := True\<rparr>
   \<and> resumeList (loadAccounts s :: ('m, 'c) task) (Fulfilled (Bare xs)) s'
       = Done (s'\<lparr>accounts := xs, isLoading := False\<rparr>)
   \<and> resumeList (loadAccounts s :: ('m, 'c) task) (Fulfilled (Envelope (Some xs))) s'
       = Done (s'\<lparr>accounts := xs, isLoading := False\<rparr>)
   \<and> resumeList (loadAccounts s :: ('m, 'c) task) (Fulfilled (Envelope None)) s'
       = Done (s'\<lparr>accounts := [], isLoading := False\<rparr>)
   \<and> resumeList (loadAccounts s :: ('m, 'c) task) (Rejected e) s'
       = Failed e (s'\<lparr>isLoading := False\<rparr>)"
  by (simp add: loadAccounts_def)

theorem loadAccounts_replaces_and_clears_witness:
  "resumeList (loadAccounts \<lparr>accounts = [], isLoading = False\<rparr> :: (unit, string) task)
     (Fulfilled (Envelope (Some
        [\<lparr>id' = ''1'', disabled = False, cooldown_seconds = 30,
          cooldown_reason = ''rate_limit''\<rparr>])))
     \<lparr>accounts = [], isLoading = True\<rparr>
   = Done \<lparr>accounts =
             [\<lparr>id' = ''1'', disabled = False, cooldown_seconds = 30,
               cooldown_reason = ''rate_limit''\<rparr>],
           isLoading = False\<rparr>
   \<and> resumeList (loadAccounts \<lparr>accounts = [], isLoading = False\<rparr> :: (unit, string) task)
       (Rejected (ApiRejection ''timeout'')) \<lparr>accounts = [], isLoading = True\<rparr>
     = Failed (ApiRejection ''timeout'') \<lparr>accounts = [], isLoading = False\<rparr>"
  using loadAccounts_replaces_and_clears
    [where ?'m = unit and ?'c = string
       and s = "\<lparr>accounts = [], isLoading = False\<rparr>"
       and xs = "[\<lparr>id' = ''1'', disabled = False, cooldown_seconds = 30,
                   cooldown_reason = ''rate_limit''\<rparr>]"
       and s' = "\<lparr>accounts = [], isLoading = True\<rparr>"
       and e = "ApiRejection ''timeout''"]
  by simp

subsection \<open>Deleting one account\<close>

text \<open>
  Claim C2. \<^verbatim>\<open>deleteAccount(id)\<close> takes the records with that id out of the list
  first: the store in which the delete call is issued, and which the caller sees while
  the call is in flight, holds no record with the id. When the call rejects, the
  operation fails with the same rejection and writes nothing: the store is left as the
  rejection found it, so the removed record is not put back.
\<close>

theorem deleteAccount_optimistic_no_rollback:
  "held (deleteAccount accountId s :: ('m, 'c) task)
       = s\<lparr>accounts := filter (\<lambda>acc. id' acc \<noteq> accountId) (accounts s)\<rparr>
   \<and> accountId \<notin> id' ` set (accounts (held (deleteAccount accountId s :: ('m, 'c) task)))
   \<and> issued (deleteAccount accountId s :: ('m, 'c) task) = [ApiDelete accountId]
   \<and> resume (deleteAccount accountId s :: ('m, 'c) task) (Rejected e) s' = Failed e s'
   \<and> resume (deleteAccount accountId s :: ('m, 'c) task) (Rejected e)
         (held (deleteAccount accountId s :: ('m, 'c) task))
       = Failed e (s\<lparr>accounts := filter (\<lambda>acc. id' acc \<noteq> accountId) (accounts s)\<rparr>)"
  by (auto simp: deleteAccount_def)

theorem deleteAccount_optimistic_no_rollback_witness:
  "held (deleteAccount ''1''
           \<lparr>accounts =
              [\<lparr>id' = ''1'', disabled = False, cooldown_seconds = 30,
                cooldown_reason = ''rate_limit''\<rparr>,
               \<lparr>id' = ''2'', disabled = True, cooldown_seconds = 0, cooldown_reason = ''''\<rparr>],
            isLoading = False\<rparr> :: (unit, string) task)
     = \<lparr>accounts =
          [\<lparr>id' = ''2'', disabled = True, cooldown_seconds = 0, cooldown_reason = ''''\<rparr>],
        isLoading = False\<rparr>
   \<and> resume (deleteAccount ''1''
           \<lparr>accounts =
              [\<lparr>id' = ''1'', disabled = False, cooldown_seconds = 30,
                cooldown_reason = ''rate_limit''\<rparr>,
               \<lparr>id' = ''2'', disabled = True, cooldown_seconds = 0, cooldown_reason = ''''\<rparr>],
            isLoading = False\<rparr> :: (unit, string) task)
         (Rejected (ApiRejection ''timeout''))
         \<lparr>accounts =
            [\<lparr>id' = ''2'', disabled = True, cooldown_seconds = 0, cooldown_reason = ''''\<rparr>],
          isLoading = False\<rparr>
     = Failed (ApiRejection ''timeout'')
         \<lparr>accounts =
            [\<lparr>id' = ''2'', disabled = True, cooldown_seconds = 0, cooldown_reason = ''''\<rparr>],
          isLoading = False\<rparr>"
  using deleteAccount_optimistic_no_rollback
    [where ?'m = unit and ?'c = string and accountId = "''1''"
       and s = "\<lparr>accounts =
                  [\<lparr>id' = ''1'', disabled = False, cooldown_seconds = 30,
                    cooldown_reason = ''rate_limit''\<rparr>,
                   \<lparr>id' = ''2'', disabled = True, cooldown_seconds = 0,
                    cooldown_reason = ''''\<rparr>],
                isLoading = False\<rparr>"
       and e = "ApiRejection ''timeout''"
       and s' = "\<lparr>accounts =
                   [\<lparr>id' = ''2'', disabled = True, cooldown_seconds = 0,
                     cooldown_reason = ''''\<rparr>],
                 isLoading = False\<rparr>"]
  by simp

subsection \<open>Disabling and enabling one account\<close>

text \<open>
  Claim C3. \<^verbatim>\<open>disableAccount(id)\<close> and \<^verbatim>\<open>enableAccount(id)\<close> issue their call
  with the store untouched. When the call rejects, the operation fails with that
  rejection and the store stays as it is; only when the call fulfils are the fields of
  the record found by id assigned.
\<close>

theorem disable_enable_call_first:
  "held (disableAccount accountId s :: ('m, 'c) task) = s
   \<and> issued (disableAccount accountId s :: ('m, 'c) task) = [ApiDisable accountId]
   \<and> resume (disableAccount accountId s :: ('m, 'c) task) (Rejected e) s' = Failed e s'
   \<and> resume (disableAccount accountId s :: ('m, 'c) task) (Fulfilled ()) s'
       = Done (s'\<lparr>accounts :=
                 mutate_found (\<lambda>acc. id' acc = accountId)
                   (\<lambda>account. account\<lparr>disabled := True\<rparr>) (accounts s')\<rparr>)
   \<and> held (enableAccount accountId s :: ('m, 'c) task) = s
   \<and> issued (enableAccount accountId s :: ('m, 'c) task) = [ApiEnable accountId]
   \<and> resume (enableAccount accountId s :: ('m, 'c) task) (Rejected e) s' = Failed e s'
   \<and> resume (enableAccount accountId s :: ('m, 'c) task) (Fulfilled ()) s'
       = Done (s'\<lparr>accounts :=
                 mutate_found (\<lambda>acc. id' acc = accountId)
                   (\<lambda>account. account\<lparr>disabled := False, cooldown_seconds := 0,
                                      cooldown_reason := ''''\<rparr>) (accounts s')\<rparr>)"
  by (simp add: disableAccount_def enableAccount_def)

theorem disable_enable_call_first_witness:
  "resume (disableAccount ''1''
           \<lparr>accounts =
              [\<lparr>id' = ''1'', disabled = False, cooldown_seconds = 30,
                cooldown_reason = ''rate_limit''\<rparr>],
            isLoading = False\<rparr> :: (unit, string) task)
         (Rejected (ApiRejection ''timeout''))
         \<lparr>accounts =
            [\<lparr>id' = ''1'', disabled = False, cooldown_seconds = 30,
              cooldown_reason = ''rate_limit''\<rparr>],
          isLoading = False\<rparr>
     = Failed (ApiRejection ''timeout'')
         \<lparr>accounts =
            [\<lparr>id' = ''1'', disabled = False, cooldown_seconds = 30,
              cooldown_reason = ''rate_limit''\<rparr>],
          isLoading = False\<rparr>
   \<and> resume (disableAccount ''1''
           \<lparr>accounts =
              [\<lparr>id' = ''1'', disabled = False, cooldown_seconds = 30,
                cooldown_reason = ''rate_limit''\<rparr>],
            isLoading = False\<rparr> :: (unit, string) task)
         (Fulfilled ())
         \<lparr>accounts =
            [\<lparr>id' = ''1'', disabled = False, cooldown_seconds = 30,
              cooldown_reason = ''rate_limit''\<rparr>],
          isLoading = False\<rparr>
     = Done
         \<lparr>accounts =
            [\<lparr>id' = ''1'', disabled = True, cooldown_seconds = 30,
              cooldown_reason = ''rate_limit''\<rparr>],
          isLoading = False\<rparr>"
  using disable_enable_call_first
    [where ?'m = unit and ?'c = string and accountId = "''1''"
       and s = "\<lparr>accounts =
                  [\<lparr>id' = ''1'', disabled = False, cooldown_seconds = 30,
                    cooldown_reason = ''rate_limit''\<rparr>],
                isLoading = False\<rparr>"
       and e = "ApiRejection ''timeout''"
       and s' = "\<lparr>accounts =
                   [\<lparr>id' = ''1'', disabled = False, cooldown_seconds = 30,
                     cooldown_reason = ''rate_limit''\<rparr>],
                 isLoading = False\<rparr>"]
  by simp




subsection \<open>At most one record per id\<close>

lemma initial_unique_ids: "unique_ids initial"
  by (simp add: unique_ids_def initial_def)

lemma loadAccounts_keeps: "unique_ids s \<Longrightarrow> keeps_unique_ids (loadAccounts s)"
  by (auto simp: loadAccounts_def unique_ids_def
      split: settled.splits response.splits option.splits)

lemma deleteAccount_keeps: "unique_ids s \<Longrightarrow> keeps_unique_ids (deleteAccount accountId s)"
  by (auto simp: deleteAccount_def unique_ids_def distinct_map_filter split: settled.splits)

lemma disableAccount_keeps: "unique_ids s \<Longrightarrow> keeps_unique_ids (disableAccount accountId s)"
  by (auto simp: disableAccount_def unique_ids_def map_mutate_found split: settled.splits)

lemma enableAccount_keeps: "unique_ids s \<Longrightarrow> keeps_unique_ids (enableAccount accountId s)"
  by (auto simp: enableAccount_def unique_ids_def map_mutate_found split: settled.splits)

lemma bulkEnable_keeps: "unique_ids s \<Longrightarrow> keeps_unique_ids (bulkEnable accountIds s)"
  by (auto simp: bulkEnable_def unique_ids_def map_fold_mutate_found split: settled.splits)

lemma bulkDisable_keeps: "unique_ids s \<Longrightarrow> keeps_unique_ids (bulkDisable accountIds s)"
  by (auto simp: bulkDisable_def unique_ids_def map_fold_mutate_found split: settled.splits)

lemma bulkDelete_keeps: "unique_ids s \<Longrightarrow> keeps_unique_ids (bulkDelete accountIds s)"
  by (auto simp: bulkDelete_def unique_ids_def distinct_map_filter split: settled.splits)

lemma updateConfig_keeps: "unique_ids s \<Longrightarrow> keeps_unique_ids (updateConfig newAccounts s)"
  by (auto simp: updateConfig_def loadAccounts_keeps split: settled.splits)

lemma keeps_unique_ids_held: "keeps_unique_ids t \<Longrightarrow> unique_ids (held t)"
  by (cases t) simp_all

lemma keeps_unique_ids_resume:
  "keeps_unique_ids t \<Longrightarrow> unique_ids s' \<Longrightarrow> keeps_unique_ids (resume t r s')"
  by (cases t) simp_all

lemma keeps_unique_ids_resumeList:
  "keeps_unique_ids t \<Longrightarrow> unique_listing r \<Longrightarrow> unique_ids s' \<Longrightarrow>
     keeps_unique_ids (resumeList t r s')"
  by (cases t) simp_all

text \<open>
  The claim that every operation preserves the invariant fails for \<^verbatim>\<open>loadAccounts\<close>:
  it stores the array the server sends as it is, so two records with one id in the
  reply are two records with one id in the store.
\<close>

theorem loadAccounts_stores_duplicates:
  "unique_ids (initial :: unit store)
   \<and> \<not> unique_ids
         (held (resumeList (loadAccounts initial :: (unit, string) task)
            (Fulfilled (Bare
               [\<lparr>id' = ''1'', disabled = False, cooldown_seconds = 0, cooldown_reason = ''''\<rparr>,
                \<lparr>id' = ''1'', disabled = True, cooldown_seconds = 30,
                 cooldown_reason = ''rate_limit''\<rparr>]))
            (held (loadAccounts initial :: (unit, string) task))))"
  by (simp add: unique_ids_def initial_def loadAccounts_def)

text \<open>
  Claim C5, amended. Starting from a list with at most one record per id, every store
  that an operation leaves has at most one record per id, provided each listing that
  \<^verbatim>\<open>loadAccounts\<close> (alone or within \<^verbatim>\<open>updateConfig\<close>) receives has at most one
  record per id. The other six operations need no such proviso: a filter and an
  assignment to fields other than \<^verbatim>\<open>id\<close> keep the ids distinct.
\<close>

theorem operations_keep_unique_ids:
  assumes "unique_ids s"
  shows "unique_ids (initial :: 'm store)
         \<and> keeps_unique_ids (loadAccounts s :: ('m, 'c) task)
         \<and> keeps_unique_ids (deleteAccount accountId s :: ('m, 'c) task)
         \<and> keeps_unique_ids (disableAccount accountId s :: ('m, 'c) task)
         \<and> keeps_unique_ids (enableAccount accountId s :: ('m, 'c) task)
         \<and> keeps_unique_ids (bulkEnable accountIds s :: ('m, 'c) task)
         \<and> keeps_unique_ids (bulkDisable accountIds s :: ('m, 'c) task)
         \<and> keeps_unique_ids (bulkDelete accountIds s :: ('m, 'c) task)
         \<and> keeps_unique_ids (updateConfig newAccounts s :: ('m, 'c) task)"
  using assms
  by (simp add: initial_unique_ids loadAccounts_keeps deleteAccount_keeps
      disableAccount_keeps enableAccount_keeps bulkEnable_keeps bulkDisable_keeps
      bulkDelete_keeps updateConfig_keeps)

theorem operations_keep_unique_ids_witness:
  "unique_ids
     \<lparr>accounts =
        [\<lparr>id' = ''1'', disabled = False, cooldown_seconds = 30,
          cooldown_reason = ''rate_limit''\<rparr>,
         \<lparr>id' = ''2'', disabled = True, cooldown_seconds = 0, cooldown_reason = ''''\<rparr>],
      isLoading = False\<rparr>
   \<and> keeps_unique_ids
        (bulkDelete [''2'', ''3'']
           \<lparr>accounts =
              [\<lparr>id' = ''1'', disabled = False, cooldown_seconds = 30,
                cooldown_reason = ''rate_limit''\<rparr>,
               \<lparr>id' = ''2'', disabled = True, cooldown_seconds = 0, cooldown_reason = ''''\<rparr>],
            isLoading = False\<rparr> :: (unit, string) task)
   \<and> unique_ids
        (held (resumeList
           (loadAccounts
              \<lparr>accounts =
                 [\<lparr>id' = ''1'', disabled = False, cooldown_seconds = 30,
                   cooldown_reason = ''rate_limit''\<rparr>,
                  \<lparr>id' = ''2'', disabled = True, cooldown_seconds = 0,
                   cooldown_reason = ''''\<rparr>],
               isLoading = False\<rparr> :: (unit, string) task)
           (Fulfilled (Bare
              [\<lparr>id' = ''3'', disabled = False, cooldown_seconds = 0, cooldown_reason = ''''\<rparr>,
               \<lparr>id' = ''1'', disabled = False, cooldown_seconds = 0, cooldown_reason = ''''\<rparr>]))
           \<lparr>accounts =
              [\<lparr>id' = ''1'', disabled = False, cooldown_seconds = 30,
                cooldown_reason = ''rate_limit''\<rparr>,
               \<lparr>id' = ''2'', disabled = True, cooldown_seconds = 0, cooldown_reason = ''''\<rparr>],
            isLoading = False\<rparr>))"
proof -
  let ?S = "\<lparr>accounts =
        [\<lparr>id' = ''1'', disabled = False, cooldown_seconds = 30,
          cooldown_reason = ''rate_limit''\<rparr>,
         \<lparr>id' = ''2'', disabled = True, cooldown_seconds = 0, cooldown_reason = ''''\<rparr>],
      isLoading = False\<rparr> :: unit store"
  let ?r = "Fulfilled (Bare
              [\<lparr>id' = ''3'', disabled = False, cooldown_seconds = 0, cooldown_reason = ''''\<rparr>,
               \<lparr>id' = ''1'', disabled = False, cooldown_seconds = 0,
                cooldown_reason = ''''\<rparr>]) :: unit response settled"
  have h: "unique_ids ?S"
    by (simp add: unique_ids_def)
  have listing: "unique_listing ?r"
    by simp
  note t = operations_keep_unique_ids
    [OF h, where ?'c = string and accountIds = "[''2'', ''3'']"]
  from t have load: "keeps_unique_ids (loadAccounts ?S :: (unit, string) task)"
    by blast
  from t have bulk: "keeps_unique_ids (bulkDelete [''2'', ''3''] ?S :: (unit, string) task)"
    by blast
  have "keeps_unique_ids (resumeList (loadAccounts ?S :: (unit, string) task) ?r ?S)"
    using load listing h by (rule keeps_unique_ids_resumeList)
  then have "unique_ids (held (resumeList (loadAccounts ?S :: (unit, string) task) ?r ?S))"
    by (rule keeps_unique_ids_held)
  with h bulk show ?thesis
    by blast
qed

subsection \<open>What enabling clears\<close>

text \<open>
  The claim that, in every list, a record with the given id has its fields cleared fails
  when two records share the id: \<^verbatim>\<open>find\<close> stops at the first, and the second, with
  its cooldown of 30 seconds, stays as it was.
\<close>

theorem enableAccount_skips_second_match:
  "Suc 0 < length
      (accounts
        \<lparr>accounts =
           [\<lparr>id' = ''1'', disabled = False, cooldown_seconds = 0, cooldown_reason = ''''\<rparr>,
            \<lparr>id' = ''1'', disabled = True, cooldown_seconds = 30,
             cooldown_reason = ''rate_limit''\<rparr>],
         isLoading = False\<rparr>)
   \<and> id' (accounts
        \<lparr>accounts =
           [\<lparr>id' = ''1'', disabled = False, cooldown_seconds = 0, cooldown_reason = ''''\<rparr>,
            \<lparr>id' = ''1'', disabled = True, cooldown_seconds = 30,
             cooldown_reason = ''rate_limit''\<rparr>],
         isLoading = False\<rparr> ! Suc 0) = ''1''
   \<and> resume
        (enableAccount ''1''
           \<lparr>accounts =
              [\<lparr>id' = ''1'', disabled = False, cooldown_seconds = 0, cooldown_reason = ''''\<rparr>,
               \<lparr>id' = ''1'', disabled = True, cooldown_seconds = 30,
                cooldown_reason = ''rate_limit''\<rparr>],
            isLoading = False\<rparr> :: (unit, string) task)
        (Fulfilled ())
        \<lparr>accounts =
           [\<lparr>id' = ''1'', disabled = False, cooldown_seconds = 0, cooldown_reason = ''''\<rparr>,
            \<lparr>id' = ''1'', disabled = True, cooldown_seconds = 30,
             cooldown_reason = ''rate_limit''\<rparr>],
         isLoading = False\<rparr>
      = Done
          \<lparr>accounts =
             [\<lparr>id' = ''1'', disabled = False, cooldown_seconds = 0, cooldown_reason = ''''\<rparr>,
              \<lparr>id' = ''1'', disabled = True, cooldown_seconds = 30,
               cooldown_reason = ''rate_limit''\<rparr>],
           isLoading = False\<rparr>
   \<and> cooldown_seconds
        (accounts
          \<lparr>accounts =
             [\<lparr>id' = ''1'', disabled = False, cooldown_seconds = 0, cooldown_reason = ''''\<rparr>,
              \<lparr>id' = ''1'', disabled = True, cooldown_seconds = 30,
               cooldown_reason = ''rate_limit''\<rparr>],
           isLoading = False\<rparr> ! Suc 0) \<noteq> 0"
  by (simp add: enableAccount_def)

text \<open>
  Claim C6, amended. When the list holds a record with the given id and that record is
  the first with the id (as it always is when the list holds at most one record per
  id), then after \<^verbatim>\<open>enableAccount(id)\<close> has resolved that record has
  \<^verbatim>\<open>disabled == false\<close>, \<^verbatim>\<open>cooldown_seconds == 0\<close> and
  \<^verbatim>\<open>cooldown_reason == ''\<close>; every other position of the list is as it was.
\<close>

theorem enableAccount_clears_first_match:
  assumes "i < length (accounts s')"
    and "id' (accounts s' ! i) = accountId"
    and "distinct (map id' (accounts s')) \<or> (\<forall>j<i. id' (accounts s' ! j) \<noteq> accountId)"
  shows "resume (enableAccount accountId s :: ('m, 'c) task) (Fulfilled ()) s'
           = Done (s'\<lparr>accounts :=
                       (accounts s')[i := (accounts s' ! i)
                          \<lparr>disabled := False, cooldown_seconds := 0,
                           cooldown_reason := ''''\<rparr>]\<rparr>)
         \<and> id' (accounts (held (resume (enableAccount accountId s :: ('m, 'c) task)
                (Fulfilled ()) s')) ! i) = accountId
         \<and> disabled (accounts (held (resume (enableAccount accountId s :: ('m, 'c) task)
                (Fulfilled ()) s')) ! i) = False
         \<and> cooldown_seconds (accounts (held (resume (enableAccount accountId s :: ('m, 'c) task)
                (Fulfilled ()) s')) ! i) = 0
         \<and> cooldown_reason (accounts (held (resume (enableAccount accountId s :: ('m, 'c) task)
                (Fulfilled ()) s')) ! i) = ''''"
proof -
  have first: "\<forall>j<i. \<not> id' (accounts s' ! j) = accountId"
  proof (intro allI impI)
    fix j
    assume "j < i"
    from assms(3) show "\<not> id' (accounts s' ! j) = accountId"
    proof
      assume "distinct (map id' (accounts s'))"
      from distinct_key_first [OF this assms(1) \<open>j < i\<close>] assms(2) show ?thesis
        by simp
    next
      assume "\<forall>j<i. id' (accounts s' ! j) \<noteq> accountId"
      with \<open>j < i\<close> show ?thesis
        by simp
    qed
  qed
  have found:
    "mutate_found (\<lambda>acc. id' acc = accountId)
       (\<lambda>account. account\<lparr>disabled := False, cooldown_seconds := 0,
                          cooldown_reason := ''''\<rparr>) (accounts s')
     = (accounts s')[i := (accounts s' ! i)
          \<lparr>disabled := False, cooldown_seconds := 0, cooldown_reason := ''''\<rparr>]"
    using assms(1) assms(2) first by (rule mutate_found_first)
  have result: "resume (enableAccount accountId s :: ('m, 'c) task) (Fulfilled ()) s'
           = Done (s'\<lparr>accounts :=
                       (accounts s')[i := (accounts s' ! i)
                          \<lparr>disabled := False, cooldown_seconds := 0,
                           cooldown_reason := ''''\<rparr>]\<rparr>)"
    by (simp add: enableAccount_def found)
  from assms(1) assms(2) show ?thesis
    by (simp add: result)
qed

theorem enableAccount_clears_first_match_witness:
  "0 < length
      (accounts
        \<lparr>accounts =
           [\<lparr>id' = ''1'', disabled = True, cooldown_seconds = 30,
             cooldown_reason = ''rate_limit''\<rparr>],
         isLoading = False\<rparr>)
   \<and> id' (accounts
        \<lparr>accounts =
           [\<lparr>id' = ''1'', disabled = True, cooldown_seconds = 30,
             cooldown_reason = ''rate_limit''\<rparr>],
         isLoading = False\<rparr> ! 0) = ''1''
   \<and> distinct (map id'
        (accounts
          \<lparr>accounts =
             [\<lparr>id' = ''1'', disabled = True, cooldown_seconds = 30,
               cooldown_reason = ''rate_limit''\<rparr>],
           isLoading = False\<rparr>))
   \<and> resume
        (enableAccount ''1''
           \<lparr>accounts =
              [\<lparr>id' = ''1'', disabled = True, cooldown_seconds = 30,
                cooldown_reason = ''rate_limit''\<rparr>],
            isLoading = False\<rparr> :: (unit, string) task)
        (Fulfilled ())
        \<lparr>accounts =
           [\<lparr>id' = ''1'', disabled = True, cooldown_seconds = 30,
             cooldown_reason = ''rate_limit''\<rparr>],
         isLoading = False\<rparr>
      = Done
          \<lparr>accounts =
             [\<lparr>id' = ''1'', disabled = False, cooldown_seconds = 0, cooldown_reason = ''''\<rparr>],
           isLoading = False\<rparr>"
proof -
  let ?S = "\<lparr>accounts =
              [\<lparr>id' = ''1'', disabled = True, cooldown_seconds = 30,
                cooldown_reason = ''rate_limit''\<rparr>],
            isLoading = False\<rparr> :: unit store"
  have h1: "0 < length (accounts ?S)"
    by simp
  have h2: "id' (accounts ?S ! 0) = ''1''"
    by simp
  have h3: "distinct (map id' (accounts ?S))"
    by simp
  have h3': "distinct (map id' (accounts ?S)) \<or> (\<forall>j<0. id' (accounts ?S ! j) \<noteq> ''1'')"
    using h3 by (rule disjI1)
  have "resume (enableAccount ''1'' ?S :: (unit, string) task) (Fulfilled ()) ?S
          = Done (?S\<lparr>accounts :=
                     (accounts ?S)[0 := (accounts ?S ! 0)
                        \<lparr>disabled := False, cooldown_seconds := 0,
                         cooldown_reason := ''''\<rparr>]\<rparr>)"
    using enableAccount_clears_first_match [OF h1 h2 h3', where ?'c = string and s = ?S]
    by (rule conjunct1)
  then have "resume (enableAccount ''1'' ?S :: (unit, string) task) (Fulfilled ()) ?S
          = Done
              \<lparr>accounts =
                 [\<lparr>id' = ''1'', disabled = False, cooldown_seconds = 0,
                   cooldown_reason = ''''\<rparr>],
               isLoading = False\<rparr>"
    by simp
  with h1 h2 h3 show ?thesis
    by blast
qed

subsection \<open>Deleting several accounts\<close>

text \<open>
  Claim C7. \<^verbatim>\<open>bulkDelete(ids)\<close> filters every record whose id is in \<open>ids\<close> out
  of the list at once: in the store it hands back while the calls are in flight, no
  record has an id of \<open>ids\<close>. It issues one delete call per element of \<open>ids\<close>, in
  order: as many calls as \<open>ids\<close> has elements, three for three ids. Whether the
  awaited promise then fulfils or rejects, nothing more is written.
\<close>

theorem bulkDelete_removes_all_and_calls_each:
  "held (bulkDelete accountIds s :: ('m, 'c) task)
       = s\<lparr>accounts := filter (\<lambda>acc. id' acc \<notin> set accountIds) (accounts s)\<rparr>
   \<and> id' ` set (accounts (held (bulkDelete accountIds s :: ('m, 'c) task)))
         \<inter> set accountIds = {}
   \<and> issued (bulkDelete accountIds s :: ('m, 'c) task) = map ApiDelete accountIds
   \<and> length (issued (bulkDelete accountIds s :: ('m, 'c) task)) = length accountIds
   \<and> resume (bulkDelete accountIds s :: ('m, 'c) task) (Fulfilled ()) s' = Done s'
   \<and> resume (bulkDelete accountIds s :: ('m, 'c) task) (Rejected e) s' = Failed e s'"
  by (auto simp: bulkDelete_def)

theorem bulkDelete_removes_all_and_calls_each_witness:
  "held (bulkDelete [''a'', ''b'', ''c'']
           \<lparr>accounts =
              [\<lparr>id' = ''a'', disabled = False, cooldown_seconds = 0, cooldown_reason = ''''\<rparr>,
               \<lparr>id' = ''d'', disabled = False, cooldown_seconds = 0, cooldown_reason = ''''\<rparr>,
               \<lparr>id' = ''c'', disabled = True, cooldown_seconds = 30,
                cooldown_reason = ''rate_limit''\<rparr>,
               \<lparr>id' = ''b'', disabled = False, cooldown_seconds = 0, cooldown_reason = ''''\<rparr>],
            isLoading = False\<rparr> :: (unit, string) task)
     = \<lparr>accounts =
          [\<lparr>id' = ''d'', disabled = False, cooldown_seconds = 0, cooldown_reason = ''''\<rparr>],
        isLoading = False\<rparr>
   \<and> issued (bulkDelete [''a'', ''b'', ''c'']
           \<lparr>accounts =
              [\<lparr>id' = ''a'', disabled = False, cooldown_seconds = 0, cooldown_reason = ''''\<rparr>,
               \<lparr>id' = ''d'', disabled = False, cooldown_seconds = 0, cooldown_reason = ''''\<rparr>,
               \<lparr>id' = ''c'', disabled = True, cooldown_seconds = 30,
                cooldown_reason = ''rate_limit''\<rparr>,
               \<lparr>id' = ''b'', disabled = False, cooldown_seconds = 0, cooldown_reason = ''''\<rparr>],
            isLoading = False\<rparr> :: (unit, string) task)
     = [ApiDelete ''a'', ApiDelete ''b'', ApiDelete ''c'']
   \<and> length (issued (bulkDelete [''a'', ''b'', ''c'']
           \<lparr>accounts =
              [\<lparr>id' = ''a'', disabled = False, cooldown_seconds = 0, cooldown_reason = ''''\<rparr>,
               \<lparr>id' = ''d'', disabled = False, cooldown_seconds = 0, cooldown_reason = ''''\<rparr>,
               \<lparr>id' = ''c'', disabled = True, cooldown_seconds = 30,
                cooldown_reason = ''rate_limit''\<rparr>,
               \<lparr>id' = ''b'', disabled = False, cooldown_seconds = 0, cooldown_reason = ''''\<rparr>],
            isLoading = False\<rparr> :: (unit, string) task)) = 3"
proof -
  let ?S = "\<lparr>accounts =
              [\<lparr>id' = ''a'', disabled = False, cooldown_seconds = 0, cooldown_reason = ''''\<rparr>,
               \<lparr>id' = ''d'', disabled = False, cooldown_seconds = 0, cooldown_reason = ''''\<rparr>,
               \<lparr>id' = ''c'', disabled = True, cooldown_seconds = 30,
                cooldown_reason = ''rate_limit''\<rparr>,
               \<lparr>id' = ''b'', disabled = False, cooldown_seconds = 0, cooldown_reason = ''''\<rparr>],
            isLoading = False\<rparr> :: unit store"
  note t = bulkDelete_removes_all_and_calls_each
    [where ?'m = unit and ?'c = string and accountIds = "[''a'', ''b'', ''c'']" and s = ?S]
  from t have a: "held (bulkDelete [''a'', ''b'', ''c''] ?S :: (unit, string) task)
       = ?S\<lparr>accounts := filter (\<lambda>acc. id' acc \<notin> set [''a'', ''b'', ''c'']) (accounts ?S)\<rparr>"
    by (rule conjunct1)
  from t have b: "issued (bulkDelete [''a'', ''b'', ''c''] ?S :: (unit, string) task)
       = map ApiDelete [''a'', ''b'', ''c'']"
    by blast
  show ?thesis
    by (simp add: a b)
qed

subsection \<open>Ids that are not in the list\<close>



subsection \<open>Replacing the configuration\<close>

text \<open>
  Claim C9. \<^verbatim>\<open>updateConfig(items)\<close> sends the items with the store untouched; once
  that call has fulfilled it goes on as \<^verbatim>\<open>loadAccounts\<close>, with no test in between,
  so the next call is the listing, and once the listing has fulfilled the accounts list
  is the list the server has just returned (the bare array, the envelope's field, or
  the empty list when the field is absent) and \<^verbatim>\<open>isLoading\<close> is false. A rejection of
  the first call is passed on to the caller, as for every operation.
\<close>

theorem updateConfig_sends_then_reloads:
  "issued (updateConfig newAccounts s :: ('m, 'c) task) = [ApiUpdateConfig newAccounts]
   \<and> held (updateConfig newAccounts s :: ('m, 'c) task) = s
   \<and> resume (updateConfig newAccounts s :: ('m, 'c) task) (Fulfilled ()) s' = loadAccounts s'
   \<and> issued (resume (updateConfig newAccounts s :: ('m, 'c) task) (Fulfilled ()) s') = [ApiList]
   \<and> resumeList (resume (updateConfig newAccounts s :: ('m, 'c) task) (Fulfilled ()) s')
         (Fulfilled (Bare xs)) s''
       = Done (s''\<lparr>accounts := xs, isLoading := False\<rparr>)
   \<and> resumeList (resume (updateConfig newAccounts s :: ('m, 'c) task) (Fulfilled ()) s')
         (Fulfilled (Envelope (Some xs))) s''
       = Done (s''\<lparr>accounts := xs, isLoading := False\<rparr>)
   \<and> resumeList (resume (updateConfig newAccounts s :: ('m, 'c) task) (Fulfilled ()) s')
         (Fulfilled (Envelope None)) s''
       = Done (s''\<lparr>accounts := [], isLoading := False\<rparr>)
   \<and> resume (updateConfig newAccounts s :: ('m, 'c) task) (Rejected e) s' = Failed e s'"
  by (simp add: updateConfig_def loadAccounts_def)

theorem updateConfig_sends_then_reloads_witness:
  "issued (updateConfig [''item'']
           \<lparr>accounts =
              [\<lparr>id' = ''1'', disabled = True, cooldown_seconds = 30,
                cooldown_reason = ''rate_limit''\<rparr>],
            isLoading = False\<rparr> :: (unit, string) task)
     = [ApiUpdateConfig [''item'']]
   \<and> resumeList
        (resume (updateConfig [''item'']
           \<lparr>accounts =
              [\<lparr>id' = ''1'', disabled = True, cooldown_seconds = 30,
                cooldown_reason = ''rate_limit''\<rparr>],
            isLoading = False\<rparr> :: (unit, string) task)
          (Fulfilled ())
          \<lparr>accounts =
             [\<lparr>id' = ''1'', disabled = True, cooldown_seconds = 30,
               cooldown_reason = ''rate_limit''\<rparr>],
           isLoading = False\<rparr>)
        (Fulfilled (Bare
           [\<lparr>id' = ''2'', disabled = False, cooldown_seconds = 0, cooldown_reason = ''''\<rparr>]))
        \<lparr>accounts =
           [\<lparr>id' = ''1'', disabled = True, cooldown_seconds = 30,
             cooldown_reason = ''rate_limit''\<rparr>],
         isLoading = True\<rparr>
      = Done
          \<lparr>accounts =
             [\<lparr>id' = ''2'', disabled = False, cooldown_seconds = 0, cooldown_reason = ''''\<rparr>],
           isLoading = False\<rparr>"
proof -
  let ?S = "\<lparr>accounts =
              [\<lparr>id' = ''1'', disabled = True, cooldown_seconds = 30,
                cooldown_reason = ''rate_limit''\<rparr>],
            isLoading = False\<rparr> :: unit store"
  note t = updateConfig_sends_then_reloads
    [where ?'m = unit and newAccounts = "[''item'']" and s = ?S and s' = ?S
       and xs = "[\<lparr>id' = ''2'', disabled = False, cooldown_seconds = 0,
                   cooldown_reason = ''''\<rparr>]"
       and s'' = "?S\<lparr>isLoading := True\<rparr>"]
  from t have a: "issued (updateConfig [''item''] ?S :: (unit, string) task)
                    = [ApiUpdateConfig [''item'']]"
    by (rule conjunct1)
  from t have b: "resumeList
        (resume (updateConfig [''item''] ?S :: (unit, string) task) (Fulfilled ()) ?S)
        (Fulfilled (Bare
           [\<lparr>id' = ''2'', disabled = False, cooldown_seconds = 0, cooldown_reason = ''''\<rparr>]))
        (?S\<lparr>isLoading := True\<rparr>)
      = Done ((?S\<lparr>isLoading := True\<rparr>)
          \<lparr>accounts :=
             [\<lparr>id' = ''2'', disabled = False, cooldown_seconds = 0, cooldown_reason = ''''\<rparr>],
           isLoading := False\<rparr>)"
    by blast
  have c: "?S\<lparr>isLoading := True\<rparr>
      = \<lparr>accounts =
           [\<lparr>id' = ''1'', disabled = True, cooldown_seconds = 30,
             cooldown_reason = ''rate_limit''\<rparr>],
         isLoading = True\<rparr>"
    by simp
  from a b show ?thesis
    unfolding c by simp
qed

subsection \<open>What disabling leaves alone\<close>

text \<open>
  Claim C10. \<^verbatim>\<open>disableAccount(id)\<close> and \<^verbatim>\<open>bulkDisable(ids)\<close> write nothing
  before their call settles and nothing when it rejects. When it fulfils, the list
  keeps its length and order, and each record is either exactly as it was or is a record
  with a matching id whose \<^verbatim>\<open>disabled\<close> field alone has been set: the
  \<^verbatim>\<open>cooldown_seconds\<close> and \<^verbatim>\<open>cooldown_reason\<close> of every record, every record with
  another id, and \<^verbatim>\<open>isLoading\<close> are unchanged.
\<close>

theorem disable_writes_only_disabled:
  "held (disableAccount accountId s :: ('m, 'c) task) = s
   \<and> resume (disableAccount accountId s :: ('m, 'c) task) (Rejected e) s' = Failed e s'
   \<and> resume (disableAccount accountId s :: ('m, 'c) task) (Fulfilled ()) s'
       = Done (held (resume (disableAccount accountId s :: ('m, 'c) task) (Fulfilled ()) s'))
   \<and> isLoading (held (resume (disableAccount accountId s :: ('m, 'c) task) (Fulfilled ()) s'))
       = isLoading s'
   \<and> list_all2 (\<lambda>a b. b = a \<or> (id' a = accountId \<and> b = a\<lparr>disabled := True\<rparr>))
         (accounts s')
         (accounts (held (resume (disableAccount accountId s :: ('m, 'c) task)
            (Fulfilled ()) s')))
   \<and> map cooldown_seconds
         (accounts (held (resume (disableAccount accountId s :: ('m, 'c) task)
            (Fulfilled ()) s')))
       = map cooldown_seconds (accounts s')
   \<and> map cooldown_reason
         (accounts (held (resume (disableAccount accountId s :: ('m, 'c) task)
            (Fulfilled ()) s')))
       = map cooldown_reason (accounts s')
   \<and> held (bulkDisable accountIds s :: ('m, 'c) task) = s
   \<and> resume (bulkDisable accountIds s :: ('m, 'c) task) (Rejected e) s' = Failed e s'
   \<and> resume (bulkDisable accountIds s :: ('m, 'c) task) (Fulfilled ()) s'
       = Done (held (resume (bulkDisable accountIds s :: ('m, 'c) task) (Fulfilled ()) s'))
   \<and> isLoading (held (resume (bulkDisable accountIds s :: ('m, 'c) task) (Fulfilled ()) s'))
       = isLoading s'
   \<and> list_all2 (\<lambda>a b. b = a \<or> (id' a \<in> set accountIds \<and> b = a\<lparr>disabled := True\<rparr>))
         (accounts s')
         (accounts (held (resume (bulkDisable accountIds s :: ('m, 'c) task)
            (Fulfilled ()) s')))
   \<and> map cooldown_seconds
         (accounts (held (resume (bulkDisable accountIds s :: ('m, 'c) task)
            (Fulfilled ()) s')))
       = map cooldown_seconds (accounts s')
   \<and> map cooldown_reason
         (accounts (held (resume (bulkDisable accountIds s :: ('m, 'c) task)
            (Fulfilled ()) s')))
       = map cooldown_reason (accounts s')"
proof -
  have one: "list_all2 (\<lambda>a b. b = a \<or> (id' a = accountId \<and> b = a\<lparr>disabled := True\<rparr>)) xs
      (mutate_found (\<lambda>acc. id' acc = accountId)
         (\<lambda>account. account\<lparr>disabled := True\<rparr>) xs)" for xs :: "'m account_scheme list"
    by (rule mutate_found_frame)
  have many: "list_all2 (\<lambda>a b. b = a \<or> (id' a \<in> set accountIds \<and> b = a\<lparr>disabled := True\<rparr>))
      xs
      (fold (\<lambda>i. mutate_found (\<lambda>acc. id' acc = i) (\<lambda>account. account\<lparr>disabled := True\<rparr>))
         accountIds xs)" for xs :: "'m account_scheme list"
    by (rule fold_mutate_found_frame) simp_all
  show ?thesis
    by (simp add: disableAccount_def bulkDisable_def one many map_mutate_found
        map_fold_mutate_found)
qed

theorem disable_writes_only_disabled_witness:
  "map cooldown_seconds
     (accounts (held (resume (disableAccount ''1'' initial :: (unit, string) task)
        (Fulfilled ())
        \<lparr>accounts =
           [\<lparr>id' = ''1'', disabled = False, cooldown_seconds = 30,
             cooldown_reason = ''rate_limit''\<rparr>,
            \<lparr>id' = ''2'', disabled = False, cooldown_seconds = 0, cooldown_reason = ''''\<rparr>],
         isLoading = False\<rparr>)))
     = [30, 0]
   \<and> map cooldown_reason
     (accounts (held (resume (bulkDisable [''1'', ''2''] initial :: (unit, string) task)
        (Fulfilled ())
        \<lparr>accounts =
           [\<lparr>id' = ''1'', disabled = False, cooldown_seconds = 30,
             cooldown_reason = ''rate_limit''\<rparr>,
            \<lparr>id' = ''2'', disabled = False, cooldown_seconds = 0, cooldown_reason = ''''\<rparr>],
         isLoading = False\<rparr>)))
     = [''rate_limit'', '''']
   \<and> isLoading
     (held (resume (bulkDisable [''1'', ''2''] initial :: (unit, string) task)
        (Fulfilled ())
        \<lparr>accounts =
           [\<lparr>id' = ''1'', disabled = False, cooldown_seconds = 30,
             cooldown_reason = ''rate_limit''\<rparr>,
            \<lparr>id' = ''2'', disabled = False, cooldown_seconds = 0, cooldown_reason = ''''\<rparr>],
         isLoading = False\<rparr>))
     = False"
proof -
  let ?S = "\<lparr>accounts =
           [\<lparr>id' = ''1'', disabled = False, cooldown_seconds = 30,
             cooldown_reason = ''rate_limit''\<rparr>,
            \<lparr>id' = ''2'', disabled = False, cooldown_seconds = 0, cooldown_reason = ''''\<rparr>],
         isLoading = False\<rparr> :: unit store"
  note t = disable_writes_only_disabled
    [where ?'m = unit and ?'c = string and accountId = "''1''"
       and accountIds = "[''1'', ''2'']" and s = initial and s' = ?S]
  from t have a: "map cooldown_seconds
     (accounts (held (resume (disableAccount ''1'' initial :: (unit, string) task)
        (Fulfilled ()) ?S)))
     = map cooldown_seconds (accounts ?S)"
    by blast
  from t have b: "map cooldown_reason
     (accounts (held (resume (bulkDisable [''1'', ''2''] initial :: (unit, string) task)
        (Fulfilled ()) ?S)))
     = map cooldown_reason (accounts ?S)"
    by blast
  from t have c: "isLoading
     (held (resume (bulkDisable [''1'', ''2''] initial :: (unit, string) task)
        (Fulfilled ()) ?S))
     = isLoading ?S"
    by blast
  show ?thesis
    by (simp add: a b c)
qed

subsection \<open>A run\<close>

text \<open>
  The store starts empty; \<^verbatim>\<open>loadAccounts\<close> receives an envelope with one record
  that is cooling down; \<^verbatim>\<open>enableAccount("1")\<close> then clears it.
\<close>

lemma load_then_enable:
  "resumeList (loadAccounts initial :: (unit, string) task)
     (Fulfilled (Envelope (Some
        [\<lparr>id' = ''1'', disabled = False, cooldown_seconds = 30,
          cooldown_reason = ''rate_limit''\<rparr>])))
     (held (loadAccounts initial :: (unit, string) task))
   = Done \<lparr>accounts =
             [\<lparr>id' = ''1'', disabled = False, cooldown_seconds = 30,
               cooldown_reason = ''rate_limit''\<rparr>],
           isLoading = False\<rparr>
   \<and> resume
        (enableAccount ''1''
           \<lparr>accounts =
              [\<lparr>id' = ''1'', disabled = False, cooldown_seconds = 30,
                cooldown_reason = ''rate_limit''\<rparr>],
            isLoading = False\<rparr> :: (unit, string) task)
        (Fulfilled ())
        \<lparr>accounts =
           [\<lparr>id' = ''1'', disabled = False, cooldown_seconds = 30,
             cooldown_reason = ''rate_limit''\<rparr>],
         isLoading = False\<rparr>
     = Done \<lparr>accounts =
             [\<lparr>id' = ''1'', disabled = False, cooldown_seconds = 0, cooldown_reason = ''''\<rparr>],
           isLoading = False\<rparr>"
  by (simp add: loadAccounts_def enableAccount_def initial_def)

end
